theory Spec2Isabelle
  imports Main
begin

section \<open>Python values and string primitives\<close>

text \<open>
  A spreadsheet cell as pandas hands it to the program: a missing value (NaN), a text,
  or an integer. Floating-point cells are left out of the model. Texts are
  \<^typ>\<open>string\<close>; characters are classified as Python classifies the ASCII range.
\<close>

datatype cell = NaN | Str string | Num int

datatype py_error = IndexError

definition isspace :: "char \<Rightarrow> bool" where
  "isspace c = (c \<in> set [CHR 0x09, CHR 0x0A, CHR 0x0B, CHR 0x0C, CHR 0x0D,
                            CHR 0x1C, CHR 0x1D, CHR 0x1E, CHR 0x1F, CHR '' ''])"

definition isupper :: "char \<Rightarrow> bool" where
  "isupper c = (c \<in> set ''ABCDEFGHIJKLMNOPQRSTUVWXYZ'')"

definition isdigit :: "char \<Rightarrow> bool" where
  "isdigit c = (c \<in> set ''0123456789'')"

definition lower_char :: "char \<Rightarrow> char" where
  "lower_char c =
     (case map_of (zip ''ABCDEFGHIJKLMNOPQRSTUVWXYZ'' ''abcdefghijklmnopqrstuvwxyz'') c of
        Some d \<Rightarrow> d | None \<Rightarrow> c)"

text \<open>\<^verbatim>\<open>s.lower()\<close>\<close>

definition lower :: "string \<Rightarrow> string" where
  "lower s = map lower_char s"

text \<open>\<^verbatim>\<open>s.strip()\<close>\<close>

definition strip :: "string \<Rightarrow> string" where
  "strip s = rev (dropWhile isspace (rev (dropWhile isspace s)))"

text \<open>\<^verbatim>\<open>a in s\<close> for two texts: \<open>a\<close> occurs in \<open>s\<close> as a contiguous piece.\<close>

definition startswith :: "string \<Rightarrow> string \<Rightarrow> bool" where
  "startswith s a = (take (length a) s = a)"

fun py_in :: "string \<Rightarrow> string \<Rightarrow> bool" where
  "py_in a [] = (a = [])"
| "py_in a (c # cs) = (startswith (c # cs) a \<or> py_in a cs)"



text \<open>\<^verbatim>\<open>s.split()\<close>: the maximal runs of non-whitespace characters.\<close>

fun split_ws :: "string \<Rightarrow> string \<Rightarrow> string list" where
  "split_ws cur [] = (if cur = [] then [] else [cur])"
| "split_ws cur (c # cs) =
     (if isspace c then (if cur = [] then split_ws [] cs else cur # split_ws [] cs)
      else split_ws (cur @ [c]) cs)"

definition split :: "string \<Rightarrow> string list" where
  "split s = split_ws [] s"


text \<open>\<^verbatim>\<open>str(n)\<close> for an integer, and \<^verbatim>\<open>str(v)\<close> for a cell.\<close>

definition digit_char :: "nat \<Rightarrow> char" where
  "digit_char d = ''0123456789'' ! d"

function str_nat :: "nat \<Rightarrow> string" where
  "str_nat n = (if n < 10 then [digit_char n] else str_nat (n div 10) @ [digit_char (n mod 10)])"
  by pat_completeness auto
termination
  by (relation "measure id") auto

declare str_nat.simps [simp del]

definition str_int :: "int \<Rightarrow> string" where
  "str_int i = (if i < 0 then CHR ''-'' # str_nat (nat (- i)) else str_nat (nat i))"

fun py_str :: "cell \<Rightarrow> string" where
  "py_str NaN = ''nan''"
| "py_str (Str s) = s"
| "py_str (Num i) = str_int i"

text \<open>\<^verbatim>\<open>pd.isna(v)\<close> and \<^verbatim>\<open>v == ''\<close>\<close>

fun isna :: "cell \<Rightarrow> bool" where
  "isna NaN = True"
| "isna _ = False"

definition is_empty_str :: "cell \<Rightarrow> bool" where
  "is_empty_str v = (v = Str [])"

section \<open>Library functions the program calls\<close>

















text \<open>
  A regular expression made of digit classes and literal characters, as
  \<^verbatim>\<open>\d{4}-\d{2}-\d{2}\<close> is, and \<^verbatim>\<open>re.search\<close> for it: the leftmost match.
\<close>

datatype atom = Digit | Lit char

fun match_atom :: "atom \<Rightarrow> char \<Rightarrow> bool" where
  "match_atom Digit c = isdigit c"
| "match_atom (Lit l) c = (c = l)"

fun match_here :: "atom list \<Rightarrow> string \<Rightarrow> bool" where
  "match_here [] s = True"
| "match_here (a # as) [] = False"
| "match_here (a # as) (c # cs) = (match_atom a c \<and> match_here as cs)"

fun re_search :: "atom list \<Rightarrow> string \<Rightarrow> string option" where
  "re_search pat [] = (if match_here pat [] then Some [] else None)"
| "re_search pat (c # cs) =
     (if match_here pat (c # cs) then Some (take (length pat) (c # cs))
      else re_search pat cs)"



section \<open>The column normalizer and the value cleaner (io\_file.py)\<close>

definition expected_columns :: "string list" where
  "expected_columns =
     [''Institution Id'', ''Course Id'', ''Course Type'', ''Degree Type'', ''Course Name'',
      ''L3 Tagging'', ''Course Intake Ids'', ''Course start date'',
      ''Course Level Tuition Fees'', ''Application Fees'', ''Application Deadline Date'',
      ''Course Level URL'', ''Course Status'', ''Show'', ''Study Mode'',
      ''Previous Education'', ''Commissionable'']"

text \<open>The dict \<^verbatim>\<open>variations\<close>, in the order it is written (a dict keeps it).\<close>

definition variations :: "(string \<times> string) list" where
  "variations =
     [(''Instituti'', ''Institution Id''),
      (''Course I'', ''Course Id''),
      (''Course TDegree'', ''Degree Type''),
      (''Course'', ''Course Name''),
      (''L3 Taggi'', ''L3 Tagging''),
      (''Course sCourse'', ''Course start date''),
      (''LApplicati'', ''Course Level Tuition Fees''),
      (''Applicati'', ''Application Fees''),
      (''Course LCourse SShow'', ''Course Level URL''),
      (''Study M'', ''Study Mode''),
      (''Previous'', ''Previous Education''),
      (''Commissionable'', ''Commissionable'')]"

text \<open>The inner loop of \<^verbatim>\<open>normalize_column_names\<close>: the first variation found in the header.\<close>

fun find_variation :: "(string \<times> string) list \<Rightarrow> string \<Rightarrow> string option" where
  "find_variation [] col = None"
| "find_variation ((variation, expected) # vs) col =
     (if startswith col variation \<or> py_in variation col then Some expected
      else find_variation vs col)"

definition normalize_column :: "string \<Rightarrow> string" where
  "normalize_column col =
     (if col \<in> set expected_columns then col
      else case find_variation variations col of
             Some normalized \<Rightarrow> if normalized \<noteq> [] then normalized else col
           | None \<Rightarrow> col)"

fun normalize_loop :: "string list \<Rightarrow> (string \<rightharpoonup> string) \<Rightarrow> (string \<rightharpoonup> string)" where
  "normalize_loop [] column_mapping = column_mapping"
| "normalize_loop (col # cols) column_mapping =
     normalize_loop cols (column_mapping(col \<mapsto> normalize_column col))"

definition normalize_column_names :: "string list \<Rightarrow> (string \<rightharpoonup> string)" where
  "normalize_column_names cols = normalize_loop cols Map.empty"

text \<open>
  A table: its column names and its rows, each row a dict from column name to cell
  (\<^verbatim>\<open>row.to_dict()\<close>). In a table every row has exactly the table's columns.
\<close>

type_synonym row = "string \<rightharpoonup> cell"

record dataframe =
  columns :: "string list"
  rows :: "row list"


text \<open>
  The first step of \<^verbatim>\<open>clean_data\<close>:
  \<^verbatim>\<open>replace(['NULL', 'NUL', 'null', 'nul'], '')\<close> on every cell.
\<close>

definition null_markers :: "cell list" where
  "null_markers = [Str ''NULL'', Str ''NUL'', Str ''null'', Str ''nul'']"

definition replace_cell :: "cell \<Rightarrow> cell" where
  "replace_cell v = (if v \<in> set null_markers then Str [] else v)"

definition replace_nulls :: "dataframe \<Rightarrow> dataframe" where
  "replace_nulls df = df\<lparr>rows := map (\<lambda>r. map_option replace_cell \<circ> r) (rows df)\<rparr>"



text \<open>
  \<^verbatim>\<open>_normalize_study_mode\<close>: empty for a missing or empty value; otherwise the
  stripped text is tested for \<open>full\<close>, then for \<open>part\<close>, case-insensitively.
\<close>

definition normalize_study_mode :: "cell \<Rightarrow> string" where
  "normalize_study_mode mode =
     (if isna mode \<or> is_empty_str mode then []
      else let m = strip (py_str mode) in
        if py_in ''full'' (lower m) then ''Full time''
        else if py_in ''part'' (lower m) then ''Part time''
        else m)"

section \<open>The field validators (validators.py)\<close>

text \<open>The dict every validator returns.\<close>

record verdict =
  valid :: bool
  message :: string




definition conjunctions :: "string list" where
  "conjunctions =
     [''and'', ''with'', ''by'', ''of'', ''the'', ''in'', ''on'', ''at'', ''to'', ''for'',
      ''from'', ''up'', ''about'', ''into'', ''through'', ''during'', ''before'',
      ''after'', ''above'', ''below'', ''between'', ''among'', ''within'', ''without'',
      ''against'', ''toward'', ''towards'', ''upon'', ''under'', ''over'', ''across'']"



text \<open>
  The loop of \<^verbatim>\<open>validate_course_name\<close> over \<^verbatim>\<open>enumerate(words)\<close>: the first
  word it reports, if any. \<^verbatim>\<open>word[0]\<close> raises IndexError on an empty word.
\<close>

fun check_conjunctions :: "nat \<Rightarrow> string list \<Rightarrow> py_error + string option" where
  "check_conjunctions i [] = Inr None"
| "check_conjunctions i (word # ws) =
     (if i > 0 \<and> lower word \<in> set conjunctions then
        (case word of
           [] \<Rightarrow> Inl IndexError
         | c # _ \<Rightarrow> if isupper c then Inr (Some word) else check_conjunctions (i + 1) ws)
      else check_conjunctions (i + 1) ws)"

definition validate_course_name :: "cell \<Rightarrow> py_error + verdict" where
  "validate_course_name v =
     (if isna v \<or> is_empty_str v then
        Inr \<lparr>valid = False, message = ''Course Name cannot be blank''\<rparr>
      else let course_name = strip (py_str v) in
        case course_name of
          [] \<Rightarrow> Inl IndexError
        | c # _ \<Rightarrow>
            if \<not> isupper c then
              Inr \<lparr>valid = False, message = ''Course Name must start with capital letter''\<rparr>
            else
              (case check_conjunctions 0 (split course_name) of
                 Inl e \<Rightarrow> Inl e
               | Inr (Some word) \<Rightarrow>
                   Inr \<lparr>valid = False,
                        message = ''Conjunction '' @ [CHR 0x22] @ word @ [CHR 0x22]
                                  @ '' should be lowercase''\<rparr>
               | Inr None \<Rightarrow> Inr \<lparr>valid = True, message = ''Valid course name''\<rparr>))"













section \<open>Validating a row and a table\<close>











section \<open>Notions the properties are stated with\<close>






text \<open>
  The column normalizer as the specification words it: a variant matches when it is
  contained in the header or the header is contained in it.
\<close>

fun find_variation_either :: "(string \<times> string) list \<Rightarrow> string \<Rightarrow> string option" where
  "find_variation_either [] col = None"
| "find_variation_either ((variation, expected) # vs) col =
     (if py_in variation col \<or> py_in col variation then Some expected
      else find_variation_either vs col)"

definition normalize_column_either :: "string \<Rightarrow> string" where
  "normalize_column_either col =
     (if col \<in> set expected_columns then col
      else case find_variation_either variations col of
             Some normalized \<Rightarrow> normalized
           | None \<Rightarrow> col)"

text \<open>A null marker as the specification words it: compared without regard to case.\<close>

definition null_marker_any_case :: "cell \<Rightarrow> bool" where
  "null_marker_any_case v =
     (case v of Str s \<Rightarrow> lower s \<in> set [''null'', ''nul'', ''null,nul''] | _ \<Rightarrow> False)"











section \<open>Facts about the string primitives\<close>

lemma py_in_iff: "py_in a s \<longleftrightarrow> (\<exists>p q. s = p @ a @ q)"
proof (induction s)
  case Nil
  then show ?case by auto
next
  case (Cons c cs)
  have "startswith (c # cs) a \<longleftrightarrow> (\<exists>q. c # cs = a @ q)"
    unfolding startswith_def
    by (metis append_eq_conv_conj)
  moreover have "(\<exists>p q. c # cs = p @ a @ q) \<longleftrightarrow> (\<exists>q. c # cs = a @ q) \<or> (\<exists>p q. cs = p @ a @ q)"
  proof
    assume "\<exists>p q. c # cs = p @ a @ q"
    then obtain p q where pq: "c # cs = p @ a @ q" by blast
    show "(\<exists>q. c # cs = a @ q) \<or> (\<exists>p q. cs = p @ a @ q)"
    proof (cases p)
      case Nil
      with pq show ?thesis by auto
    next
      case (Cons x p')
      with pq have "cs = p' @ a @ q" by simp
      then show ?thesis by blast
    qed
  next
    assume "(\<exists>q. c # cs = a @ q) \<or> (\<exists>p q. cs = p @ a @ q)"
    then show "\<exists>p q. c # cs = p @ a @ q"
    proof
      assume "\<exists>q. c # cs = a @ q"
      then obtain q where "c # cs = [] @ a @ q" by auto
      then show ?thesis by blast
    next
      assume "\<exists>p q. cs = p @ a @ q"
      then obtain p q where "c # cs = (c # p) @ a @ q" by auto
      then show ?thesis by blast
    qed
  qed
  ultimately show ?case using Cons.IH by simp
qed

lemma dropWhile_keeps_piece:
  "a \<noteq> [] \<Longrightarrow> \<not> P (hd a) \<Longrightarrow> \<exists>p'. dropWhile P (p @ a @ q) = p' @ a @ q"
proof (induction p)
  case Nil
  then have "dropWhile P (a @ q) = a @ q" by (cases a) auto
  then show ?case by (metis append_Nil)
next
  case (Cons x p)
  then show ?case by (cases "P x") (auto intro: exI [of _ "x # p"])
qed

lemma strip_keeps_piece:
  assumes "a \<noteq> []" "\<not> isspace (hd a)" "\<not> isspace (last a)"
  shows "\<exists>p' q'. strip (p @ a @ q) = p' @ a @ q'"
proof -
  obtain p' where p': "dropWhile isspace (p @ a @ q) = p' @ a @ q"
    using dropWhile_keeps_piece [of a isspace p q] assms by blast
  have "rev a \<noteq> []" "\<not> isspace (hd (rev a))"
    using assms by (simp_all add: hd_rev)
  then obtain q' where q': "dropWhile isspace (rev q @ rev a @ rev p') = q' @ rev a @ rev p'"
    using dropWhile_keeps_piece [of "rev a" isspace "rev q" "rev p'"] by blast
  have "strip (p @ a @ q) = p' @ a @ rev q'"
    by (simp add: strip_def p' q')
  then show ?thesis by blast
qed

lemma py_in_strip:
  assumes "py_in a s" "a \<noteq> []" "\<not> isspace (hd a)" "\<not> isspace (last a)"
  shows "py_in a (strip s)"
  using assms strip_keeps_piece unfolding py_in_iff by metis

lemma isspace_lower_char: "isspace (lower_char c) = isspace c"
  by (simp add: lower_char_def isspace_def)

lemma lower_strip: "lower (strip s) = strip (lower s)"
proof -
  have "isspace \<circ> lower_char = isspace"
    by (rule ext) (simp add: isspace_lower_char)
  then show ?thesis
    by (simp add: lower_def strip_def rev_map dropWhile_map)
qed

lemma rstrip_prefix: "\<exists>w. t = rev (dropWhile P (rev t)) @ w"
proof -
  have "rev (dropWhile P (rev t)) @ rev (takeWhile P (rev t))
          = rev (takeWhile P (rev t) @ dropWhile P (rev t))"
    by (simp only: rev_append)
  also have "\<dots> = t"
    by (simp only: takeWhile_dropWhile_id rev_rev_ident)
  finally show ?thesis by metis
qed

lemma strip_no_lead: "strip s \<noteq> [] \<Longrightarrow> \<not> isspace (hd (strip s))"
proof -
  assume ne: "strip s \<noteq> []"
  define t where "t = dropWhile isspace s"
  obtain w where w: "t = strip s @ w"
    using rstrip_prefix [of t isspace] by (auto simp: strip_def t_def)
  with ne have "t \<noteq> []" and "hd (strip s) = hd t" by auto
  then show ?thesis using hd_dropWhile [of isspace s] by (simp add: t_def)
qed

lemma strip_no_trail: "strip s \<noteq> [] \<Longrightarrow> \<not> isspace (last (strip s))"
proof -
  assume ne: "strip s \<noteq> []"
  then have "dropWhile isspace (rev (dropWhile isspace s)) \<noteq> []"
    by (simp add: strip_def)
  then have "\<not> isspace (hd (dropWhile isspace (rev (dropWhile isspace s))))"
    by (rule hd_dropWhile)
  then show ?thesis using ne by (simp add: strip_def last_rev)
qed

lemma strip_fixed:
  assumes "s = [] \<or> (\<not> isspace (hd s) \<and> \<not> isspace (last s))"
  shows "strip s = s"
proof (cases "s = []")
  case True
  then show ?thesis by (simp add: strip_def)
next
  case False
  with assms have h: "\<not> isspace (hd s)" and l: "\<not> isspace (last s)" by auto
  from False h have "dropWhile isspace s = s" by (cases s) auto
  moreover from False l have "dropWhile isspace (rev s) = rev s"
    by (cases "rev s") (auto simp: last_rev hd_rev)
  ultimately show ?thesis by (simp add: strip_def)
qed

lemma strip_idem: "strip (strip s) = strip s"
  using strip_fixed [of "strip s"] strip_no_lead [of s] strip_no_trail [of s] by blast

section \<open>The study mode cleaner\<close>

lemma normalize_study_mode_full:
  assumes "py_in ''full'' (lower s)"
  shows "normalize_study_mode (Str s) = ''Full time''"
proof -
  from assms have "py_in ''full'' (strip (lower s))"
    by (rule py_in_strip) (simp_all add: isspace_def)
  then have "py_in ''full'' (lower (strip s))"
    by (simp add: lower_strip)
  moreover from assms have "s \<noteq> []"
    by (auto simp: lower_def startswith_def)
  ultimately show ?thesis
    by (simp add: normalize_study_mode_def is_empty_str_def)
qed

lemma normalize_study_mode_fixed_points:
  "normalize_study_mode (Str ''Full time'') = ''Full time''"
  "normalize_study_mode (Str ''Part time'') = ''Part time''"
  "normalize_study_mode (Str []) = []"
  by (simp_all add: normalize_study_mode_def is_empty_str_def strip_def isspace_def
        lower_def lower_char_def startswith_def)

lemma normalize_study_mode_stripped:
  assumes "\<not> py_in ''full'' (lower (strip t))" "\<not> py_in ''part'' (lower (strip t))"
  shows "normalize_study_mode (Str (strip t)) = strip t"
  using assms
  by (simp add: normalize_study_mode_def is_empty_str_def strip_idem)

text \<open>
  C10. A study mode whose lowercased text contains both \<open>full\<close> and \<open>part\<close> is
  cleaned to \<open>Full time\<close>, and cleaning the cleaner's own output changes nothing.
\<close>

theorem normalize_study_mode_full_first_and_idempotent:
  "(py_in ''full'' (lower s) \<and> py_in ''part'' (lower s)
      \<longrightarrow> normalize_study_mode (Str s) = ''Full time'')
   \<and> normalize_study_mode (Str (normalize_study_mode v)) = normalize_study_mode v"
proof
  show "py_in ''full'' (lower s) \<and> py_in ''part'' (lower s)
          \<longrightarrow> normalize_study_mode (Str s) = ''Full time''"
    by (simp add: normalize_study_mode_full)
next
  show "normalize_study_mode (Str (normalize_study_mode v)) = normalize_study_mode v"
  proof (cases "isna v \<or> is_empty_str v")
    case True
    then show ?thesis
      by (simp add: normalize_study_mode_def [of v] normalize_study_mode_fixed_points)
  next
    case False
    define m where "m = strip (py_str v)"
    consider "py_in ''full'' (lower m)"
      | "\<not> py_in ''full'' (lower m)" "py_in ''part'' (lower m)"
      | "\<not> py_in ''full'' (lower m)" "\<not> py_in ''part'' (lower m)"
      by blast
    then show ?thesis
    proof cases
      case 1
      with False have "normalize_study_mode v = ''Full time''"
        by (simp add: normalize_study_mode_def m_def)
      then show ?thesis by (simp add: normalize_study_mode_fixed_points)
    next
      case 2
      with False have "normalize_study_mode v = ''Part time''"
        by (simp add: normalize_study_mode_def m_def)
      then show ?thesis by (simp add: normalize_study_mode_fixed_points)
    next
      case 3
      with False have "normalize_study_mode v = strip (py_str v)"
        by (simp add: normalize_study_mode_def m_def)
      moreover from 3 have "normalize_study_mode (Str (strip (py_str v))) = strip (py_str v)"
        unfolding m_def by (rule normalize_study_mode_stripped)
      ultimately show ?thesis by simp
    qed
  qed
qed

theorem normalize_study_mode_witness:
  "py_in ''full'' (lower ''Part or FULL time'') \<and> py_in ''part'' (lower ''Part or FULL time'')
   \<and> normalize_study_mode (Str ''Part or FULL time'') = ''Full time''
   \<and> normalize_study_mode (Str (normalize_study_mode (Str '' evening '')))
       = normalize_study_mode (Str '' evening '')"
proof -
  have h: "py_in ''full'' (lower ''Part or FULL time'') \<and> py_in ''part'' (lower ''Part or FULL time'')"
    by (simp add: lower_def lower_char_def startswith_def)
  with normalize_study_mode_full_first_and_idempotent [of "''Part or FULL time''" "Str '' evening ''"]
  show ?thesis by blast
qed

section \<open>The Course Name validator\<close>

text \<open>
  C1. The claim says every validator returns a verdict for every input. On a name made
  of blanks only, the Course Name validator raises IndexError instead.
\<close>

theorem validate_course_name_blanks_raises:
  "validate_course_name (Str ''   '') = Inl IndexError"
  by (simp add: validate_course_name_def is_empty_str_def strip_def isspace_def)

section \<open>Searching for a pattern\<close>


lemma match_here_take: "match_here pat s \<longleftrightarrow> length pat \<le> length s \<and> match_here pat (take (length pat) s)"
  by (induction pat s rule: match_here.induct) auto

lemma match_here_append:
  "length d = length pat \<Longrightarrow> match_here pat (d @ q) = match_here pat d"
  using match_here_take [of pat "d @ q"] by simp



lemma re_search_first:
  assumes "length d = length pat" "match_here pat d"
    "\<forall>i<length p. \<not> match_here pat (drop i (p @ d @ q))"
  shows "re_search pat (p @ d @ q) = Some d"
  using assms(3)
proof (induction p)
  case Nil
  have m: "match_here pat (d @ q)" using assms(1,2) by (simp add: match_here_append)
  show ?case
  proof (cases "d @ q")
    case Nil
    then show ?thesis using m by simp
  next
    case (Cons c cs)
    then have "re_search pat (d @ q) = Some (take (length pat) (d @ q))"
      using m by simp
    then show ?thesis using assms(1) by simp
  qed
next
  case (Cons x p)
  from Cons.prems have "\<not> match_here pat (drop 0 ((x # p) @ d @ q))" by blast
  then have nm: "\<not> match_here pat (x # p @ d @ q)" by simp
  have "\<forall>i<length p. \<not> match_here pat (drop i (p @ d @ q))"
  proof (intro allI impI)
    fix i assume "i < length p"
    then have "\<not> match_here pat (drop (Suc i) ((x # p) @ d @ q))"
      using Cons.prems by (metis Suc_less_eq length_Cons)
    then show "\<not> match_here pat (drop i (p @ d @ q))" by simp
  qed
  then have "re_search pat (p @ d @ q) = Some d" by (rule Cons.IH)
  then show ?case using nm by simp
qed








section \<open>The date cleaner\<close>






section \<open>The column normalizer\<close>

lemma startswith_py_in: "startswith s a \<Longrightarrow> py_in a s"
proof -
  assume "startswith s a"
  then have "s = [] @ a @ drop (length a) s"
    by (metis append_Nil append_take_drop_id startswith_def)
  then show ?thesis unfolding py_in_iff by blast
qed

lemma find_variation_find:
  "find_variation vs col = map_option snd (find (\<lambda>(variation, expected). py_in variation col) vs)"
  by (induction vs col rule: find_variation.induct) (auto dest: startswith_py_in)

lemma variations_nonempty: "find P variations = Some (v, e) \<Longrightarrow> e \<noteq> []"
proof -
  assume "find P variations = Some (v, e)"
  then have "(v, e) \<in> set variations"
    by (auto simp: find_Some_iff in_set_conv_nth)
  then show ?thesis by (auto simp: variations_def)
qed

lemma normalize_column_find:
  "normalize_column h =
     (if h \<in> set expected_columns then h
      else case find (\<lambda>(variation, expected). py_in variation h) variations of
             Some (variation, expected) \<Rightarrow> expected
           | None \<Rightarrow> h)"
  by (auto simp: normalize_column_def find_variation_find split: option.splits
      dest: variations_nonempty)

lemma normalize_loop_lookup:
  "normalize_loop cols m h = (if h \<in> set cols then Some (normalize_column h) else m h)"
  by (induction cols arbitrary: m) auto

text \<open>
  C8, as amended. The mapping has exactly the given headers as keys. A header that is a
  canonical field name maps to itself; otherwise it maps to the canonical name of the
  first variant, in the table's order, that is contained in the header; with no such
  variant it maps to itself. A header contained in a variant is not a match.
\<close>

theorem normalize_column_names_first_contained:
  "normalize_column_names cols h =
     (if h \<notin> set cols then None
      else if h \<in> set expected_columns then Some h
      else case find (\<lambda>(variation, expected). \<exists>p q. h = p @ variation @ q) variations of
             Some (variation, expected) \<Rightarrow> Some expected
           | None \<Rightarrow> Some h)"
proof -
  have "(\<lambda>(variation, expected). \<exists>p q. h = p @ variation @ q)
          = (\<lambda>(variation :: string, expected :: string). py_in variation h)"
    by (simp add: py_in_iff)
  then show ?thesis
    by (simp add: normalize_column_names_def normalize_loop_lookup normalize_column_find
        split: option.splits)
qed

theorem normalize_column_names_witness:
  "normalize_column_names [''Course Id'', ''Institution'', ''Courses Offered'', ''Fees'']
      ''Courses Offered'' = Some ''Course Name''
   \<and> normalize_column_names [''Course Id'', ''Institution'', ''Courses Offered'', ''Fees'']
      ''Fees'' = Some ''Fees''
   \<and> normalize_column_names [''Course Id'', ''Institution'', ''Courses Offered'', ''Fees'']
      ''Course Id'' = Some ''Course Id''"
proof -
  have e: "\<And>h. (\<lambda>(variation, expected). \<exists>p q. h = p @ variation @ q)
          = (\<lambda>(variation :: string, expected :: string). py_in variation h)"
    by (simp add: py_in_iff)
  show ?thesis
    unfolding normalize_column_names_first_contained e
    by (simp add: expected_columns_def variations_def startswith_def)
qed

text \<open>
  C8 as stated fails: the header \<open>Instit\<close> is contained in the variant \<open>Instituti\<close>,
  so containment in either direction would map it to \<open>Institution Id\<close>; the
  normalizer leaves it as it is.
\<close>

theorem normalize_column_header_in_variant_counterexample:
  "''Instit'' \<notin> set expected_columns
   \<and> py_in ''Instit'' ''Instituti''
   \<and> normalize_column_either ''Instit'' = ''Institution Id''
   \<and> normalize_column_names [''Instit''] ''Instit'' = Some ''Instit''"
  by (simp add: normalize_column_either_def normalize_column_names_def normalize_column_def
      expected_columns_def variations_def startswith_def)

section \<open>Null markers\<close>

text \<open>
  C4, as amended. Null-marker erasure rewrites a cell to the empty text exactly when the
  cell is one of the four texts \<open>NULL\<close>, \<open>NUL\<close>, \<open>null\<close>, \<open>nul\<close>, and leaves
  every other cell, the columns and the number of rows as they are.
\<close>

theorem replace_nulls_exact_markers:
  "(v \<in> {Str ''NULL'', Str ''NUL'', Str ''null'', Str ''nul''} \<longrightarrow> replace_cell v = Str [])
   \<and> (v \<notin> {Str ''NULL'', Str ''NUL'', Str ''null'', Str ''nul''} \<longrightarrow> replace_cell v = v)
   \<and> columns (replace_nulls df) = columns df
   \<and> length (rows (replace_nulls df)) = length (rows df)
   \<and> (\<forall>i c. i < length (rows df) \<longrightarrow>
         (rows (replace_nulls df) ! i) c = map_option replace_cell ((rows df ! i) c))"
  by (simp add: replace_cell_def null_markers_def replace_nulls_def)

theorem replace_nulls_witness:
  "Str ''nul'' \<in> {Str ''NULL'', Str ''NUL'', Str ''null'', Str ''nul''}
   \<and> replace_cell (Str ''nul'') = Str []
   \<and> Num 7 \<notin> {Str ''NULL'', Str ''NUL'', Str ''null'', Str ''nul''}
   \<and> replace_cell (Num 7) = Num 7
   \<and> (0 :: nat) < length (rows \<lparr>columns = [''Show''], rows = [[''Show'' \<mapsto> Str ''NULL'']]\<rparr>)
   \<and> (rows (replace_nulls \<lparr>columns = [''Show''], rows = [[''Show'' \<mapsto> Str ''NULL'']]\<rparr>) ! 0) ''Show''
       = Some (Str [])"
proof -
  have a: "replace_cell (Str ''NULL'') = Str []"
    using replace_nulls_exact_markers [of "Str ''NULL''" "\<lparr>columns = [], rows = []\<rparr>"] by simp
  have b: "replace_cell (Str ''nul'') = Str []"
    using replace_nulls_exact_markers [of "Str ''nul''" "\<lparr>columns = [], rows = []\<rparr>"] by simp
  have c: "replace_cell (Num 7) = Num 7"
    using replace_nulls_exact_markers [of "Num 7" "\<lparr>columns = [], rows = []\<rparr>"] by simp
  have d: "(rows (replace_nulls \<lparr>columns = [''Show''], rows = [[''Show'' \<mapsto> Str ''NULL'']]\<rparr>) ! 0) ''Show''
       = map_option replace_cell (Some (Str ''NULL''))"
    using replace_nulls_exact_markers [of NaN "\<lparr>columns = [''Show''], rows = [[''Show'' \<mapsto> Str ''NULL'']]\<rparr>"]
    by simp
  show ?thesis using a b c d by simp
qed

text \<open>
  C4 as stated fails: \<open>Null\<close> and the compound \<open>NULL,NUL\<close> are null markers when
  compared without regard to case, and neither is erased.
\<close>

theorem replace_nulls_mixed_case_counterexample:
  "null_marker_any_case (Str ''Null'') \<and> replace_cell (Str ''Null'') = Str ''Null''
   \<and> null_marker_any_case (Str ''NULL,NUL'') \<and> replace_cell (Str ''NULL,NUL'') = Str ''NULL,NUL''
   \<and> (rows (replace_nulls \<lparr>columns = [''Show''], rows = [[''Show'' \<mapsto> Str ''Null'']]\<rparr>) ! 0) ''Show''
       = Some (Str ''Null'')"
  by (simp add: null_marker_any_case_def replace_cell_def null_markers_def replace_nulls_def
      lower_def lower_char_def)

section \<open>The Course Intake Ids validator\<close>











section \<open>The Course Name validator on names that are not blank\<close>






section \<open>The URL validator\<close>







section \<open>The records of one row\<close>

















section \<open>When validating a row raises\<close>







section \<open>The Course Id records\<close>




section \<open>The records of a run\<close>








section \<open>One record per row and field; the Unique records\<close>











end
